theory Spec2Isabelle
  imports Main "HOL-Library.Word" "HOL-Library.Sublist"
begin

section \<open>MiniHack base environment (nle/minihack/base.py)\<close>

text \<open>
  The class \<open>MiniHack\<close> of \<open>nle/minihack/base.py\<close>: the observation window
  (\<open>_crop_observation\<close>), the description lookups (\<open>get_screen_description\<close>,
  \<open>get_neighbor_descriptions\<close>, \<open>get_direction_obj\<close>, \<open>index_to_dir_action\<close>),
  the inventory lookup (\<open>key_in_inventory\<close>), and the life cycle of the reward manager
  (\<open>__init__\<close>, \<open>reset\<close>, \<open>step\<close>, \<open>_is_episode_end\<close>).

  Python integers are \<open>int\<close>; the cells of the \<open>uint8\<close> arrays are \<open>8 word\<close>;
  a Python \<open>str\<close> is the list of its code points; every exception the code can raise
  is a value of \<open>error\<close>, returned as \<open>Inl\<close>.
\<close>

subsection \<open>Errors, bytes and text\<close>

datatype error =
    IndexError | AssertionError | ValueError | KeyError | AttributeError
  | UnicodeDecodeError

type_synonym byte = "8 word"

type_synonym pystr = "nat list"

text \<open>\<open>ord(c)\<close> for a one-character string, and a \<open>str\<close> literal as code points.\<close>

definition py_ord :: "char \<Rightarrow> int" where
  "py_ord c = of_char c"

definition str :: "string \<Rightarrow> pystr" where
  "str s = map of_char s"

text \<open>\<open>name in s\<close> on two \<open>str\<close> values: \<open>name\<close> occurs in \<open>s\<close> as a contiguous run.\<close>

fun py_in :: "pystr \<Rightarrow> pystr \<Rightarrow> bool" where
  "py_in name [] = (name = [])"
| "py_in name (c # cs) = (prefix name (c # cs) \<or> py_in name cs)"

text \<open>
  \<open>bytes.decode("utf-8")\<close> with the default strict error handling: the well-formed
  byte sequences of the Unicode standard give code points, anything else (a stray
  continuation byte, an overlong form, a surrogate, a value above U+10FFFF, a truncated
  sequence) raises \<open>UnicodeDecodeError\<close>, here \<open>None\<close>.
\<close>

definition in_range :: "byte \<Rightarrow> byte \<Rightarrow> byte \<Rightarrow> bool" where
  "in_range lo hi b = (lo \<le> b \<and> b \<le> hi)"

definition second_range :: "byte \<Rightarrow> byte \<times> byte" where
  "second_range b =
     (if b = 0xE0 then (0xA0, 0xBF)
      else if b = 0xED then (0x80, 0x9F)
      else if b = 0xF0 then (0x90, 0xBF)
      else if b = 0xF4 then (0x80, 0x8F)
      else (0x80, 0xBF))"

fun utf8_decode :: "byte list \<Rightarrow> pystr option" where
  "utf8_decode [] = Some []"
| "utf8_decode (b # bs) =
    (if b < 0x80 then map_option (Cons (unat b)) (utf8_decode bs)
     else if in_range 0xC2 0xDF b then
       (case bs of
          c1 # r \<Rightarrow>
            if in_range 0x80 0xBF c1
            then map_option (Cons ((unat b - 0xC0) * 64 + (unat c1 - 0x80))) (utf8_decode r)
            else None
        | _ \<Rightarrow> None)
     else if in_range 0xE0 0xEF b then
       (case bs of
          c1 # c2 # r \<Rightarrow>
            if in_range (fst (second_range b)) (snd (second_range b)) c1
               \<and> in_range 0x80 0xBF c2
            then map_option
                   (Cons ((unat b - 0xE0) * 4096 + (unat c1 - 0x80) * 64 + (unat c2 - 0x80)))
                   (utf8_decode r)
            else None
        | _ \<Rightarrow> None)
     else if in_range 0xF0 0xF4 b then
       (case bs of
          c1 # c2 # c3 # r \<Rightarrow>
            if in_range (fst (second_range b)) (snd (second_range b)) c1
               \<and> in_range 0x80 0xBF c2 \<and> in_range 0x80 0xBF c3
            then map_option
                   (Cons ((unat b - 0xF0) * 262144 + (unat c1 - 0x80) * 4096
                          + (unat c2 - 0x80) * 64 + (unat c3 - 0x80)))
                   (utf8_decode r)
            else None
        | _ \<Rightarrow> None)
     else None)"

definition decode :: "byte list \<Rightarrow> error + pystr" where
  "decode bs = (case utf8_decode bs of None \<Rightarrow> Inl UnicodeDecodeError | Some t \<Rightarrow> Inr t)"

subsection \<open>Indexing and slicing\<close>

text \<open>
  \<open>a[i]\<close> on a sequence of length \<open>n\<close>: an index in \<open>[-n, -1]\<close> counts from the end,
  an index outside \<open>[-n, n - 1]\<close> raises \<open>IndexError\<close>.
\<close>

definition py_get :: "'a list \<Rightarrow> int \<Rightarrow> error + 'a" where
  "py_get xs i =
     (let n = int (length xs)
      in if 0 \<le> i \<and> i < n then Inr (xs ! nat i)
         else if - n \<le> i \<and> i < 0 then Inr (xs ! nat (i + n))
         else Inl IndexError)"

text \<open>\<open>a[y, x]\<close> on an array whose first two axes are rows and columns.\<close>

definition np_get2 :: "'a list list \<Rightarrow> int \<Rightarrow> int \<Rightarrow> error + 'a" where
  "np_get2 a y x = (case py_get a y of Inl e \<Rightarrow> Inl e | Inr row \<Rightarrow> py_get row x)"

text \<open>
  \<open>a[lo:hi]\<close>: a negative bound counts from the end, and both bounds are then clipped
  to \<open>[0, n]\<close>; a slice never raises.
\<close>

definition slice_bound :: "nat \<Rightarrow> int \<Rightarrow> nat" where
  "slice_bound n i = (if i < 0 then nat (max 0 (i + int n)) else min (nat i) n)"

definition py_slice :: "int \<Rightarrow> int \<Rightarrow> 'a list \<Rightarrow> 'a list" where
  "py_slice lo hi xs =
     (let s = slice_bound (length xs) lo; e = slice_bound (length xs) hi
      in take (e - s) (drop s xs))"

text \<open>\<open>range(lo, hi)\<close>.\<close>

definition py_range :: "int \<Rightarrow> int \<Rightarrow> int list" where
  "py_range lo hi = map (\<lambda>k. lo + int k) [0..<nat (hi - lo)]"

subsection \<open>The direction table\<close>

text \<open>
  \<open>index_to_dir_action\<close>: the assertion \<open>0 <= index < 9\<close>, then the lookup in the
  dictionary literal; \<open>None\<close> is the entry of the agent's own position.
\<close>

definition index_to_dir_dict :: "int \<rightharpoonup> int option" where
  "index_to_dir_dict =
     [0 \<mapsto> Some (py_ord CHR ''y''),
      1 \<mapsto> Some (py_ord CHR ''k''),
      2 \<mapsto> Some (py_ord CHR ''u''),
      3 \<mapsto> Some (py_ord CHR ''h''),
      4 \<mapsto> None,
      5 \<mapsto> Some (py_ord CHR ''l''),
      6 \<mapsto> Some (py_ord CHR ''b''),
      7 \<mapsto> Some (py_ord CHR ''j''),
      8 \<mapsto> Some (py_ord CHR ''n'')]"

definition index_to_dir_action :: "int \<Rightarrow> error + int option" where
  "index_to_dir_action index =
     (if 0 \<le> index \<and> index < 9
      then (case index_to_dir_dict index of None \<Rightarrow> Inl KeyError | Some v \<Rightarrow> Inr v)
      else Inl AssertionError)"

subsection \<open>Observation snapshots and the environment\<close>

text \<open>
  The fields of an observation that \<open>MiniHack\<close> reads: \<open>blstats\<close> (whose first two
  entries are the agent's \<open>x\<close> and \<open>y\<close>), \<open>screen_descriptions\<close> (rows by columns by
  a fixed-capacity byte buffer), \<open>inv_strs\<close> (one byte line per inventory slot) and
  \<open>inv_letters\<close> (one byte per slot).
\<close>

record observation =
  blstats :: "int list"
  screen_descriptions :: "byte list list list"
  inv_strs :: "byte list list"
  inv_letters :: "byte list"

text \<open>
  The calls that \<open>MiniHack\<close> makes to its collaborators, in the order it makes them.
\<close>

datatype call = ManagerReset | SuperInit | Update string | WikiInit | SuperReset

text \<open>
  The attributes of a \<open>MiniHack\<close> object. \<open>engine\<close> is the state of the parent class
  (\<open>NetHackStaircase\<close>, not part of these sources); \<open>_previous_obs\<close> and
  \<open>_previous_action\<close> do not exist before the first \<open>step\<close>, hence the options.
\<close>

record ('rm, 'eng, 'a) env =
  reward_manager :: "'rm option"
  engine :: 'eng
  obs_crop_h :: int
  obs_crop_w :: int
  obs_crop_pad :: 'a
  observation_keys :: "string list"
  minihack_obs_keys :: "string list"
  use_wiki :: bool
  last_observation :: observation
  previous_obs :: "observation option"
  previous_action :: "int option"
  calls :: "call list"

datatype step_status = ABORTED | RUNNING | DEATH | TASK_SUCCESSFUL

text \<open>
  The collaborators whose code is outside \<open>nle/minihack/base.py\<close>, as parameters: the
  reward manager's \<open>reset\<close> and \<open>check_episode_end_call\<close> (which receives the
  environment, the previous observation, the previous action and the new observation,
  and changes the manager), and the parent's \<open>reset\<close> and \<open>_is_episode_end\<close>.
\<close>

record ('rm, 'eng, 'a) collaborators =
  manager_reset :: "'rm \<Rightarrow> 'rm"
  check_episode_end_call ::
    "'rm \<Rightarrow> ('rm, 'eng, 'a) env \<Rightarrow> observation \<Rightarrow> int \<Rightarrow> observation \<Rightarrow> bool \<times> 'rm"
  super_reset :: "'eng \<Rightarrow> 'eng \<times> observation"
  super_is_episode_end :: "'eng \<Rightarrow> observation \<Rightarrow> step_status"

subsection \<open>Construction, reset, step and the end of an episode\<close>

definition MINIHACK_SPACE_FUNCS_keys :: "string list" where
  "MINIHACK_SPACE_FUNCS_keys =
     [''glyphs_crop'', ''chars_crop'', ''colors_crop'', ''tty_chars_crop'',
      ''tty_colors_crop'', ''screen_descriptions_crop'', ''pixel_crop'']"

text \<open>
  \<open>get_obs_space_dict\<close> raises \<open>ValueError\<close> at a key that is neither one of the
  parent's spaces nor one of \<open>MINIHACK_SPACE_FUNCS\<close>, unless the key \<open>pixel\<close> is
  among the environment's keys. Only whether it raises is modelled.
\<close>

definition get_obs_space_dict_raises :: "string list \<Rightarrow> string list \<Rightarrow> bool" where
  "get_obs_space_dict_raises keys space_dict_keys =
     (\<exists>key \<in> set keys. key \<notin> set space_dict_keys \<and> key \<notin> set MINIHACK_SPACE_FUNCS_keys
        \<and> ''pixel'' \<notin> set keys)"

text \<open>
  \<open>__init__\<close>. \<open>rm\<close>, \<open>h\<close>, \<open>w\<close>, \<open>pad\<close>, \<open>wiki\<close> and \<open>des_file\<close> are the keyword
  arguments \<open>reward_manager\<close>, \<open>obs_crop_h\<close>, \<open>obs_crop_w\<close>, \<open>obs_crop_pad\<close>,
  \<open>use_wiki\<close> and \<open>des_file\<close>; \<open>keys\<close> is the \<open>observation_keys\<close> argument.
  What the parent's constructor produces is given: its state \<open>eng\<close>, its
  \<open>_observation_keys\<close> (\<open>okeys\<close>), the keys of \<open>NLE_SPACE_ITEMS\<close>
  (\<open>space_dict_keys\<close>) and the initial \<open>last_observation\<close> (\<open>obs0\<close>). The parent's
  constructor and the patch of the description file are taken to return normally.
  The statements follow the source's order: the manager is reset, the parent is
  constructed, the description file is compiled, and only then the two assertions on
  the window run.
\<close>

definition MiniHack_init ::
  "('rm, 'eng, 'a) collaborators \<Rightarrow> 'rm option \<Rightarrow> int \<Rightarrow> int \<Rightarrow> 'a \<Rightarrow> bool \<Rightarrow> string
     \<Rightarrow> string list \<Rightarrow> 'eng \<Rightarrow> string list \<Rightarrow> string list \<Rightarrow> observation
     \<Rightarrow> error + ('rm, 'eng, 'a) env" where
  "MiniHack_init ops rm h w pad wiki des_file keys eng okeys space_dict_keys obs0 =
     (let keys1 = (if ''pixel_crop'' \<in> set keys
                   then keys @ filter (\<lambda>k. k \<notin> set keys) [''glyphs_crop'', ''chars_crop'']
                   else keys);
          rm1 = (case rm of None \<Rightarrow> None | Some m \<Rightarrow> Some (manager_reset ops m));
          calls1 = (case rm of None \<Rightarrow> [] | Some m \<Rightarrow> [ManagerReset]);
          calls2 = calls1 @ [SuperInit, Update des_file]
      in if h mod 2 \<noteq> 1 then Inl AssertionError
         else if w mod 2 \<noteq> 1 then Inl AssertionError
         else if ''screen_descriptions'' \<notin> set okeys then Inl ValueError
         else if get_obs_space_dict_raises keys1 space_dict_keys then Inl ValueError
         else Inr \<lparr>reward_manager = rm1, engine = eng,
                   obs_crop_h = h, obs_crop_w = w, obs_crop_pad = pad,
                   observation_keys = okeys, minihack_obs_keys = keys1,
                   use_wiki = wiki, last_observation = obs0,
                   previous_obs = None, previous_action = None,
                   calls = calls2 @ (if wiki then [WikiInit] else [])\<rparr>)"

text \<open>
  \<open>reset\<close>: the manager, when there is one, is reset, then the parent's \<open>reset\<close> runs
  on the parent's state and gives the first observation of the episode.
\<close>

definition reset ::
  "('rm, 'eng, 'a) collaborators \<Rightarrow> ('rm, 'eng, 'a) env
     \<Rightarrow> ('rm, 'eng, 'a) env \<times> observation" where
  "reset ops e =
     (let e1 = (case reward_manager e of
                  None \<Rightarrow> e
                | Some m \<Rightarrow> e\<lparr>reward_manager := Some (manager_reset ops m),
                              calls := calls e @ [ManagerReset]\<rparr>);
          (eng1, obs) = super_reset ops (engine e1)
      in (e1\<lparr>engine := eng1, last_observation := obs, calls := calls e1 @ [SuperReset]\<rparr>,
          obs))"

text \<open>
  \<open>step\<close> records a copy of the last observation and the action, then hands over to the
  parent's \<open>step\<close>, which is outside these sources and calls \<open>_is_episode_end\<close> on the
  new observation. \<open>step_record\<close> is the part written in \<open>MiniHack.step\<close>.
\<close>

definition step_record :: "('rm, 'eng, 'a) env \<Rightarrow> int \<Rightarrow> ('rm, 'eng, 'a) env" where
  "step_record e action =
     e\<lparr>previous_obs := Some (last_observation e), previous_action := Some action\<rparr>"

text \<open>
  \<open>_is_episode_end\<close>: with a manager, its check runs on the recorded observation and
  action (an \<open>AttributeError\<close> when no step has recorded them) and a true result ends
  the episode as \<open>TASK_SUCCESSFUL\<close>; in every other case the parent's check decides.
  The manager's new state is returned with the decision.
\<close>

definition is_episode_end ::
  "('rm, 'eng, 'a) collaborators \<Rightarrow> ('rm, 'eng, 'a) env \<Rightarrow> observation
     \<Rightarrow> error + step_status \<times> ('rm, 'eng, 'a) env" where
  "is_episode_end ops e obs =
     (case reward_manager e of
        None \<Rightarrow> Inr (super_is_episode_end ops (engine e) obs, e)
      | Some m \<Rightarrow>
          (case (previous_obs e, previous_action e) of
             (Some pobs, Some pact) \<Rightarrow>
               (let (result, m1) = check_episode_end_call ops m e pobs pact obs;
                    e1 = e\<lparr>reward_manager := Some m1\<rparr>
                in if result then Inr (TASK_SUCCESSFUL, e1)
                   else Inr (super_is_episode_end ops (engine e1) obs, e1))
           | _ \<Rightarrow> Inl AttributeError))"

subsection \<open>The observation window\<close>

text \<open>
  \<open>np.pad(a, pad_width=(before, after), mode="constant", constant_values=c)\<close> on a
  two-dimensional array: a pair of two numbers is the padding before and after the
  data on every axis. The width of the padded rows is that of the first row plus the
  padding (an array without rows is taken to have no columns).
\<close>

definition ncols :: "'a list list \<Rightarrow> nat" where
  "ncols a = (case a of [] \<Rightarrow> 0 | r # _ \<Rightarrow> length r)"

definition np_pad :: "'a list list \<Rightarrow> nat \<times> nat \<Rightarrow> 'a \<Rightarrow> 'a list list" where
  "np_pad a pad_width c =
     (let before = fst pad_width; after = snd pad_width;
          wd = before + ncols a + after
      in replicate before (replicate wd c)
         @ map (\<lambda>r. replicate before c @ r @ replicate after c) a
         @ replicate after (replicate wd c))"

text \<open>
  \<open>_crop_observation\<close>. A negative \<open>pad_width\<close> makes \<open>np.pad\<close> raise \<open>ValueError\<close>.
  The result is the two-dimensional slice of the padded array.
\<close>

definition crop_observation ::
  "('rm, 'eng, 'a) env \<Rightarrow> 'a list list \<Rightarrow> int \<times> int \<Rightarrow> error + 'a list list" where
  "crop_observation e obs loc =
     (let dh = obs_crop_h e div 2;
          dw = obs_crop_w e div 2;
          x = fst loc + dw;
          y = snd loc + dh
      in if dw < 0 \<or> dh < 0 then Inl ValueError
         else let padded = np_pad obs (nat dw, nat dh) (obs_crop_pad e)
              in Inr (map (py_slice (x - dw) (x + dw + 1))
                          (py_slice (y - dh) (y + dh + 1) padded)))"

subsection \<open>Descriptions\<close>

text \<open>
  The methods that take an optional observation start with
  \<open>if observation is None: observation = self.last_observation\<close>.
\<close>

definition observation_or_last ::
  "('rm, 'eng, 'a) env \<Rightarrow> observation option \<Rightarrow> observation" where
  "observation_or_last e observation =
     (case observation of None \<Rightarrow> last_observation e | Some ob \<Rightarrow> ob)"

text \<open>\<open>np.where(des_arr == 0)[0]\<close>: the indices of the zero bytes, ascending.\<close>

definition np_where_zero :: "byte list \<Rightarrow> nat list" where
  "np_where_zero bs = filter (\<lambda>i. bs ! i = 0) [0..<length bs]"

text \<open>
  \<open>get_screen_description\<close>: the buffer of cell \<open>[y, x]\<close>, cut before its first zero
  byte and decoded. Taking element \<open>[0]\<close> of the zero positions raises \<open>IndexError\<close>
  when the buffer holds no zero byte.
\<close>

definition get_screen_description ::
  "('rm, 'eng, 'a) env \<Rightarrow> int \<Rightarrow> int \<Rightarrow> observation option \<Rightarrow> error + pystr" where
  "get_screen_description e x y observation =
     (let obs = observation_or_last e observation
      in case np_get2 (screen_descriptions obs) y x of
           Inl err \<Rightarrow> Inl err
         | Inr des_arr \<Rightarrow>
             (case np_where_zero des_arr of
                [] \<Rightarrow> Inl IndexError
              | symb_len # _ \<Rightarrow> decode (take symb_len des_arr)))"

text \<open>A list comprehension stops at the first element whose computation raises.\<close>

fun collect :: "('a \<Rightarrow> error + 'b) \<Rightarrow> 'a list \<Rightarrow> error + 'b list" where
  "collect f [] = Inr []"
| "collect f (a # as) =
     (case f a of
        Inl err \<Rightarrow> Inl err
      | Inr b \<Rightarrow> (case collect f as of Inl err \<Rightarrow> Inl err | Inr bs \<Rightarrow> Inr (b # bs)))"

text \<open>
  \<open>get_neighbor_descriptions\<close>: \<open>x, y = blstats[:2]\<close> (a \<open>ValueError\<close> when there are
  fewer than two entries), then the comprehension with \<open>j\<close> outer and \<open>i\<close> inner.
\<close>

definition get_neighbor_descriptions ::
  "('rm, 'eng, 'a) env \<Rightarrow> observation option \<Rightarrow> error + pystr list" where
  "get_neighbor_descriptions e observation =
     (let obs = observation_or_last e observation
      in case blstats obs of
           x # y # _ \<Rightarrow>
             collect (\<lambda>(i, j). get_screen_description e i j (Some obs))
               [(i, j). j \<leftarrow> py_range (y - 1) (y + 2), i \<leftarrow> py_range (x - 1) (x + 2)]
         | _ \<Rightarrow> Inl ValueError)"

text \<open>
  \<open>get_direction_obj\<close>: the loop over \<open>enumerate(neighbors)\<close> returns at the first
  description that contains \<open>name\<close>.
\<close>

fun scan_neighbors :: "pystr \<Rightarrow> (nat \<times> pystr) list \<Rightarrow> error + int option" where
  "scan_neighbors name [] = Inr None"
| "scan_neighbors name ((i, tile_description) # rest) =
     (if py_in name tile_description then index_to_dir_action (int i)
      else scan_neighbors name rest)"

definition get_direction_obj ::
  "('rm, 'eng, 'a) env \<Rightarrow> pystr \<Rightarrow> observation option \<Rightarrow> error + int option" where
  "get_direction_obj e name observation =
     (let obs = observation_or_last e observation
      in case get_neighbor_descriptions e (Some obs) of
           Inl err \<Rightarrow> Inl err
         | Inr neighbors \<Rightarrow> scan_neighbors name (enumerate 0 neighbors))"

subsection \<open>The inventory\<close>

text \<open>
  \<open>key_in_inventory\<close>: two assertions on the observation keys, then the loop over
  \<open>zip(inv_letters, inv_strs)\<close>, which breaks at a line of zero bytes and returns the
  decoded letter at the first line that contains \<open>name\<close>.
\<close>

fun scan_inventory :: "pystr \<Rightarrow> (byte \<times> byte list) list \<Rightarrow> error + pystr option" where
  "scan_inventory name [] = Inr None"
| "scan_inventory name ((letter, line) # rest) =
     (if list_all (\<lambda>b. b = 0) line then Inr None
      else case decode line of
             Inl err \<Rightarrow> Inl err
           | Inr s \<Rightarrow>
               if py_in name s
               then (case decode [letter] of Inl err \<Rightarrow> Inl err | Inr k \<Rightarrow> Inr (Some k))
               else scan_inventory name rest)"

definition key_in_inventory :: "('rm, 'eng, 'a) env \<Rightarrow> pystr \<Rightarrow> error + pystr option" where
  "key_in_inventory e name =
     (if ''inv_strs'' \<notin> set (observation_keys e) then Inl AssertionError
      else if ''inv_letters'' \<notin> set (observation_keys e) then Inl AssertionError
      else scan_inventory name
             (zip (inv_letters (last_observation e)) (inv_strs (last_observation e))))"

subsection \<open>Example values\<close>

text \<open>
  A three by three field of descriptions in buffers of eight bytes; an observation with
  the agent at \<open>(x, y)\<close> and four inventory slots, the third one empty; a reward
  manager whose state counts its checks and whose check succeeds on action 7; a parent
  whose staircase is at \<open>(2, 2)\<close>; and an environment as the constructor leaves it.
\<close>

definition buffer :: "string \<Rightarrow> byte list" where
  "buffer s = map (\<lambda>c. of_nat (of_char c)) s @ replicate (8 - length s) 0"

definition ex_field :: "byte list list list" where
  "ex_field =
     [[buffer ''wall'',  buffer ''door'',  buffer ''wall''],
      [buffer ''floor'', buffer ''floor'', buffer ''floor''],
      [buffer ''floor'', buffer ''altar'', buffer ''stairs'']]"

definition ex_obs :: "int \<Rightarrow> int \<Rightarrow> observation" where
  "ex_obs x y =
     \<lparr>blstats = [x, y, 0], screen_descriptions = ex_field,
      inv_strs = [buffer ''a dagger'', buffer ''an ax'', buffer [], buffer ''a key''],
      inv_letters = [0x61, 0x62, 0x63, 0x64]\<rparr>"

definition ex_keys :: "string list" where
  "ex_keys = [''blstats'', ''screen_descriptions'', ''inv_strs'', ''inv_letters'']"

definition ex_ops :: "(nat, nat, nat) collaborators" where
  "ex_ops =
     \<lparr>manager_reset = (\<lambda>m. 0),
      check_episode_end_call = (\<lambda>m e pobs pact ob. (pact = 7, Suc m)),
      super_reset = (\<lambda>g. (Suc g, ex_obs 1 1)),
      super_is_episode_end =
        (\<lambda>g ob. if blstats ob = [2, 2, 0] then TASK_SUCCESSFUL else RUNNING)\<rparr>"

definition ex_env :: "nat option \<Rightarrow> int \<Rightarrow> int \<Rightarrow> (nat, nat, nat) env" where
  "ex_env rm h w =
     \<lparr>reward_manager = rm, engine = 0, obs_crop_h = h, obs_crop_w = w, obs_crop_pad = 0,
      observation_keys = ex_keys, minihack_obs_keys = [''chars_crop''], use_wiki = False,
      last_observation = ex_obs 1 1, previous_obs = None, previous_action = None,
      calls = [ManagerReset, SuperInit, Update ''memory.des'']\<rparr>"

subsection \<open>Notions used in the statements\<close>

text \<open>
  The text of a buffer: its bytes before the first zero byte, each an ASCII code point.
  A well-formed field of descriptions: \<open>rows\<close> rows of \<open>cols\<close> buffers, each buffer
  holding a zero byte and bytes below 128 only (the range that the observation space of
  \<open>screen_descriptions_crop\<close> declares). The list position that an index of
  \<open>[-n, n - 1]\<close> denotes. The anchors whose three by three block lies within the
  indices that a lookup accepts. An inventory line of zero bytes, and an inventory
  whose letters and lines are ASCII bytes.
\<close>

definition cell_text :: "byte list \<Rightarrow> pystr" where
  "cell_text bs = map unat (takeWhile (\<lambda>b. b \<noteq> 0) bs)"

definition ascii_field :: "byte list list list \<Rightarrow> nat \<Rightarrow> nat \<Rightarrow> bool" where
  "ascii_field f rows cols =
     (length f = rows \<and>
      (\<forall>row \<in> set f. length row = cols \<and>
         (\<forall>cell \<in> set row. 0 \<in> set cell \<and> (\<forall>b \<in> set cell. b < 0x80))))"

definition wrap :: "nat \<Rightarrow> int \<Rightarrow> nat" where
  "wrap n i = nat (if i < 0 then i + int n else i)"

definition block_addressable :: "nat \<Rightarrow> nat \<Rightarrow> int \<Rightarrow> int \<Rightarrow> bool" where
  "block_addressable rows cols x y =
     (- int cols < x \<and> x + 1 < int cols \<and> - int rows < y \<and> y + 1 < int rows)"

definition zero_line :: "byte \<times> byte list \<Rightarrow> bool" where
  "zero_line p = list_all (\<lambda>b. b = 0) (snd p)"

definition ascii_inventory :: "observation \<Rightarrow> bool" where
  "ascii_inventory obs =
     ((\<forall>b \<in> set (inv_letters obs). b < 0x80)
      \<and> (\<forall>line \<in> set (inv_strs obs). \<forall>b \<in> set line. b < 0x80))"

section \<open>Properties\<close>

subsection \<open>The direction table\<close>

lemma index_to_dir_action_codes:
  "index_to_dir_action 0 = Inr (Some 121) \<and> index_to_dir_action 1 = Inr (Some 107)
   \<and> index_to_dir_action 2 = Inr (Some 117) \<and> index_to_dir_action 3 = Inr (Some 104)
   \<and> index_to_dir_action 5 = Inr (Some 108) \<and> index_to_dir_action 6 = Inr (Some 98)
   \<and> index_to_dir_action 7 = Inr (Some 106) \<and> index_to_dir_action 8 = Inr (Some 110)"
  by (simp add: index_to_dir_action_def index_to_dir_dict_def py_ord_def)

lemma index_to_dir_action_outside:
  "index < 0 \<or> 9 \<le> index \<Longrightarrow> index_to_dir_action index = Inl AssertionError"
  by (auto simp: index_to_dir_action_def)

text \<open>
  C6. The mapping from a neighbour index to a direction is the fixed table: index 0 gives
  the code of \<open>y\<close> (north-west), 1 of \<open>k\<close> (north), 2 of \<open>u\<close> (north-east), 3 of \<open>h\<close>
  (west), 4 gives none (the anchor itself), 5 of \<open>l\<close> (east), 6 of \<open>b\<close> (south-west),
  7 of \<open>j\<close> (south) and 8 of \<open>n\<close> (south-east). The nine indices 0..8 are listed one
  by one.
\<close>

theorem index_to_dir_action_table:
  "index_to_dir_action 0 = Inr (Some (py_ord CHR ''y''))
   \<and> index_to_dir_action 1 = Inr (Some (py_ord CHR ''k''))
   \<and> index_to_dir_action 2 = Inr (Some (py_ord CHR ''u''))
   \<and> index_to_dir_action 3 = Inr (Some (py_ord CHR ''h''))
   \<and> index_to_dir_action 4 = Inr None
   \<and> index_to_dir_action 5 = Inr (Some (py_ord CHR ''l''))
   \<and> index_to_dir_action 6 = Inr (Some (py_ord CHR ''b''))
   \<and> index_to_dir_action 7 = Inr (Some (py_ord CHR ''j''))
   \<and> index_to_dir_action 8 = Inr (Some (py_ord CHR ''n''))"
  by (simp add: index_to_dir_action_def index_to_dir_dict_def)

subsection \<open>The end of an episode\<close>

text \<open>
  C3. In a step (the previous observation and the action have been recorded): with a
  reward manager whose check on the recorded observation, the action and the new
  observation is true, the decision is \<open>TASK_SUCCESSFUL\<close>; with a manager whose check
  is false, and with no manager, the decision is the one of the parent's staircase
  check, which is therefore never bypassed.
\<close>

theorem is_episode_end_decision:
  "(reward_manager e = Some m
      \<and> check_episode_end_call ops m (step_record e action) (last_observation e) action obs
          = (True, m1)
      \<longrightarrow> is_episode_end ops (step_record e action) obs
          = Inr (TASK_SUCCESSFUL, (step_record e action)\<lparr>reward_manager := Some m1\<rparr>))
   \<and> (reward_manager e = Some m
      \<and> check_episode_end_call ops m (step_record e action) (last_observation e) action obs
          = (False, m1)
      \<longrightarrow> is_episode_end ops (step_record e action) obs
          = Inr (super_is_episode_end ops (engine e) obs,
                 (step_record e action)\<lparr>reward_manager := Some m1\<rparr>))
   \<and> (reward_manager e = None
      \<longrightarrow> is_episode_end ops (step_record e action) obs
          = Inr (super_is_episode_end ops (engine e) obs, step_record e action))"
  by (simp add: is_episode_end_def step_record_def)

theorem is_episode_end_decision_witness:
  "is_episode_end ex_ops (step_record (ex_env (Some 3) 5 5) 7) (ex_obs 1 2)
     = Inr (TASK_SUCCESSFUL, (step_record (ex_env (Some 3) 5 5) 7)\<lparr>reward_manager := Some 4\<rparr>)
   \<and> is_episode_end ex_ops (step_record (ex_env (Some 3) 5 5) 2) (ex_obs 2 2)
     = Inr (TASK_SUCCESSFUL, (step_record (ex_env (Some 3) 5 5) 2)\<lparr>reward_manager := Some 4\<rparr>)
   \<and> is_episode_end ex_ops (step_record (ex_env (Some 3) 5 5) 2) (ex_obs 1 2)
     = Inr (RUNNING, (step_record (ex_env (Some 3) 5 5) 2)\<lparr>reward_manager := Some 4\<rparr>)
   \<and> is_episode_end ex_ops (step_record (ex_env None 5 5) 7) (ex_obs 2 2)
     = Inr (TASK_SUCCESSFUL, step_record (ex_env None 5 5) 7)"
  using is_episode_end_decision [of "ex_env (Some 3) 5 5" 3 ex_ops 7 "ex_obs 1 2" 4]
        is_episode_end_decision [of "ex_env (Some 3) 5 5" 3 ex_ops 2 "ex_obs 2 2" 4]
        is_episode_end_decision [of "ex_env (Some 3) 5 5" 3 ex_ops 2 "ex_obs 1 2" 4]
        is_episode_end_decision [of "ex_env None 5 5" 0 ex_ops 7 "ex_obs 2 2" 0]
  by (simp add: ex_env_def ex_ops_def ex_obs_def step_record_def)

subsection \<open>The reward manager is reset before every episode\<close>

text \<open>
  C4. With a reward manager: a construction that succeeds has called the manager's
  \<open>reset\<close> once, as its first call, before the parent's constructor; and every
  \<open>reset\<close> of the environment calls the manager's \<open>reset\<close> once and then the parent's
  \<open>reset\<close>, so the manager is reset before the engine is and before any step of the
  episode that this \<open>reset\<close> starts.
\<close>

theorem manager_reset_at_init_and_reset:
  "(MiniHack_init ops (Some m) h w pad wiki des_file keys eng okeys space_dict_keys obs0 = Inr e
      \<longrightarrow> reward_manager e = Some (manager_reset ops m)
          \<and> calls e = [ManagerReset, SuperInit, Update des_file]
                       @ (if wiki then [WikiInit] else []))
   \<and> (reward_manager e0 = Some m
      \<longrightarrow> reward_manager (fst (reset ops e0)) = Some (manager_reset ops m)
          \<and> calls (fst (reset ops e0)) = calls e0 @ [ManagerReset, SuperReset])"
  by (auto simp: MiniHack_init_def reset_def Let_def split: if_splits prod.splits)

theorem manager_reset_at_init_and_reset_witness:
  "MiniHack_init ex_ops (Some 3) 5 5 0 False ''memory.des'' [''chars_crop''] 0 ex_keys
       [''chars''] (ex_obs 1 1) = Inr (ex_env (Some 0) 5 5)
   \<and> reward_manager (ex_env (Some 0) 5 5) = Some (manager_reset ex_ops 3)
   \<and> calls (ex_env (Some 0) 5 5) = [ManagerReset, SuperInit, Update ''memory.des'']
   \<and> reward_manager (ex_env (Some 3) 5 5) = Some 3
   \<and> reward_manager (fst (reset ex_ops (ex_env (Some 3) 5 5))) = Some 0
   \<and> calls (fst (reset ex_ops (ex_env (Some 3) 5 5)))
       = [ManagerReset, SuperInit, Update ''memory.des'', ManagerReset, SuperReset]"
proof -
  have built:
    "MiniHack_init ex_ops (Some 3) 5 5 0 False ''memory.des'' [''chars_crop''] 0 ex_keys
       [''chars''] (ex_obs 1 1) = Inr (ex_env (Some 0) 5 5)"
    by (simp add: MiniHack_init_def ex_env_def ex_ops_def ex_keys_def
          get_obs_space_dict_raises_def MINIHACK_SPACE_FUNCS_keys_def)
  have held: "reward_manager (ex_env (Some 3) 5 5) = Some 3"
    by (simp add: ex_env_def)
  show ?thesis
    using built held
      manager_reset_at_init_and_reset [of ex_ops 3 5 5 0 False "''memory.des''"
        "[''chars_crop'']" 0 ex_keys "[''chars'']" "ex_obs 1 1" "ex_env (Some 0) 5 5"
        "ex_env (Some 3) 5 5"]
    by (simp add: ex_env_def ex_ops_def)
qed

subsection \<open>The window sizes are checked at construction\<close>

text \<open>
  C8. A construction with an even window height or an even window width fails with an
  \<open>AssertionError\<close> (the parent's constructor and the patch of the description file,
  which run before the assertions, having returned); and the crop itself holds no such
  check: whatever the window sizes, it never raises an \<open>AssertionError\<close>.
\<close>

theorem init_rejects_even_window:
  "(even h \<or> even w
      \<longrightarrow> MiniHack_init ops rm h w pad wiki des_file keys eng okeys space_dict_keys obs0
          = Inl AssertionError)
   \<and> crop_observation e field loc \<noteq> Inl AssertionError"
  by (auto simp: MiniHack_init_def crop_observation_def Let_def even_iff_mod_2_eq_zero)

theorem init_rejects_even_window_witness:
  "(even (4::int) \<or> even (5::int))
   \<and> MiniHack_init ex_ops (Some 3) 4 5 0 False ''memory.des'' [''chars_crop''] 0 ex_keys
       [''chars''] (ex_obs 1 1) = Inl AssertionError
   \<and> crop_observation (ex_env None 4 5) [[1, 2, 3], [4, 5, 6], [7, 8, 9]] (1, 1)
       \<noteq> Inl AssertionError"
proof -
  have h: "even (4::int) \<or> even (5::int)" by simp
  show ?thesis
    using h init_rejects_even_window [of 4 5 ex_ops "Some 3" 0 False "''memory.des''"
        "[''chars_crop'']" 0 ex_keys "[''chars'']" "ex_obs 1 1" "ex_env None 4 5"
        "[[1, 2, 3], [4, 5, 6], [7, 8, 9]]" "(1, 1)"]
    by simp
qed

subsection \<open>Decoding, indexing and scanning\<close>

lemma utf8_decode_ascii: "\<forall>b \<in> set bs. b < 0x80 \<Longrightarrow> utf8_decode bs = Some (map unat bs)"
  by (induction bs) simp_all

lemma decode_ascii: "\<forall>b \<in> set bs. b < 0x80 \<Longrightarrow> decode bs = Inr (map unat bs)"
  by (simp add: decode_def utf8_decode_ascii)

lemma np_where_zero_first:
  assumes "0 \<in> set bs"
  shows "\<exists>rest. np_where_zero bs = length (takeWhile (\<lambda>b. b \<noteq> 0) bs) # rest"
proof -
  let ?P = "\<lambda>b::byte. b \<noteq> 0"
  let ?n = "length (takeWhile ?P bs)"
  have "dropWhile ?P bs \<noteq> []"
    using assms by (auto simp: dropWhile_eq_Nil_conv)
  moreover have "length (takeWhile ?P bs @ dropWhile ?P bs) = length bs"
    by simp
  then have "length bs = ?n + length (dropWhile ?P bs)"
    by (simp only: length_append)
  ultimately have lt: "?n < length bs" by simp
  have z: "bs ! ?n = 0"
    using nth_length_takeWhile [OF lt] by simp
  have nz: "bs ! i \<noteq> 0" if "i < ?n" for i
  proof -
    have "takeWhile ?P bs ! i \<in> set (takeWhile ?P bs)" using that by (rule nth_mem)
    then have "?P (takeWhile ?P bs ! i)" by (rule set_takeWhileD [THEN conjunct2])
    then show ?thesis using that by (simp add: takeWhile_nth)
  qed
  have "[0..<length bs] = [0..<?n] @ [?n..<length bs]"
    using upt_add_eq_append [of 0 ?n "length bs - ?n"] lt by simp
  then have split: "[0..<length bs] = [0..<?n] @ ?n # [Suc ?n..<length bs]"
    using lt by (simp add: upt_conv_Cons)
  have "filter (\<lambda>i. bs ! i = 0) [0..<?n] = []"
    using nz by (simp add: filter_empty_conv)
  then show ?thesis
    unfolding np_where_zero_def by (subst split) (simp add: z)
qed

lemma py_get_eq:
  "py_get xs i =
     (if - int (length xs) \<le> i \<and> i < int (length xs) then Inr (xs ! wrap (length xs) i)
      else Inl IndexError)"
  by (auto simp: py_get_def wrap_def Let_def)

lemma get_screen_description_eq:
  assumes "ascii_field (screen_descriptions (observation_or_last e observation)) rows cols"
  shows "get_screen_description e x y observation =
     (if - int rows \<le> y \<and> y < int rows \<and> - int cols \<le> x \<and> x < int cols
      then Inr (cell_text (screen_descriptions (observation_or_last e observation)
                             ! wrap rows y ! wrap cols x))
      else Inl IndexError)"
proof -
  let ?f = "screen_descriptions (observation_or_last e observation)"
  have len: "length ?f = rows" using assms by (simp add: ascii_field_def)
  show ?thesis
  proof (cases "- int rows \<le> y \<and> y < int rows")
    case False
    then show ?thesis
      by (auto simp: get_screen_description_def np_get2_def py_get_eq len Let_def)
  next
    case y: True
    then have wy: "wrap rows y < rows" by (auto simp: wrap_def)
    then have row: "?f ! wrap rows y \<in> set ?f" using len by simp
    then have rlen: "length (?f ! wrap rows y) = cols"
      using assms by (simp add: ascii_field_def)
    show ?thesis
    proof (cases "- int cols \<le> x \<and> x < int cols")
      case False
      then show ?thesis using y
        by (auto simp: get_screen_description_def np_get2_def py_get_eq len rlen Let_def)
    next
      case x: True
      let ?cell = "?f ! wrap rows y ! wrap cols x"
      from x have "wrap cols x < cols" by (auto simp: wrap_def)
      then have "?cell \<in> set (?f ! wrap rows y)" using rlen by simp
      with row assms have z: "0 \<in> set ?cell" and a: "\<forall>b \<in> set ?cell. b < 0x80"
        by (auto simp: ascii_field_def)
      from np_where_zero_first [OF z] obtain rest where
        w: "np_where_zero ?cell = length (takeWhile (\<lambda>b. b \<noteq> 0) ?cell) # rest" ..
      have t: "take (length (takeWhile (\<lambda>b. b \<noteq> 0) ?cell)) ?cell = takeWhile (\<lambda>b. b \<noteq> 0) ?cell"
        by (simp add: takeWhile_eq_take [symmetric])
      have d: "decode (takeWhile (\<lambda>b. b \<noteq> 0) ?cell) = Inr (cell_text ?cell)"
        unfolding cell_text_def using a by (intro decode_ascii) (auto dest: set_takeWhileD)
      show ?thesis using x y
        by (simp add: get_screen_description_def np_get2_def py_get_eq len rlen Let_def w t d)
    qed
  qed
qed

lemma py_range_three: "py_range (v - 1) (v + 2) = [v - 1, v, v + 1]"
  by (simp add: py_range_def upt_rec)

lemma neighbor_positions:
  "[(i, j). j \<leftarrow> py_range (y - 1) (y + 2), i \<leftarrow> py_range (x - 1) (x + 2)]
     = [(x - 1, y - 1), (x, y - 1), (x + 1, y - 1),
        (x - 1, y), (x, y), (x + 1, y),
        (x - 1, y + 1), (x, y + 1), (x + 1, y + 1)]"
  by (simp add: py_range_three)

lemma collect_Inr:
  "collect f xs = Inr ys \<Longrightarrow> length ys = length xs \<and> (\<forall>k < length xs. f (xs ! k) = Inr (ys ! k))"
proof (induction xs arbitrary: ys)
  case Nil
  then show ?case by simp
next
  case (Cons a as)
  then show ?case
    by (auto split: sum.splits simp: nth_Cons split: nat.splits)
qed

lemma collect_all_Inr:
  "\<forall>a \<in> set xs. \<exists>b. f a = Inr b \<Longrightarrow> \<exists>ys. collect f xs = Inr ys"
  by (induction xs) auto

lemma collect_Inl:
  "collect f xs = Inl err \<Longrightarrow> \<exists>a \<in> set xs. f a = Inl err"
  by (induction xs) (auto split: sum.splits)

lemma get_neighbor_descriptions_Some:
  "get_neighbor_descriptions e (Some (observation_or_last e observation))
     = get_neighbor_descriptions e observation"
  by (simp add: get_neighbor_descriptions_def observation_or_last_def)

lemma get_neighbor_descriptions_eq:
  assumes wf: "ascii_field (screen_descriptions obs) rows cols"
    and obs: "obs = observation_or_last e observation"
    and pos: "blstats obs = x # y # rest"
    and blk: "block_addressable rows cols x y"
  shows "get_neighbor_descriptions e observation =
     Inr (map (\<lambda>(i, j). cell_text (screen_descriptions obs ! wrap rows j ! wrap cols i))
            [(x - 1, y - 1), (x, y - 1), (x + 1, y - 1),
             (x - 1, y), (x, y), (x + 1, y),
             (x - 1, y + 1), (x, y + 1), (x + 1, y + 1)])"
proof -
  have wf': "ascii_field (screen_descriptions (observation_or_last e (Some obs))) rows cols"
    using wf by (simp add: observation_or_last_def)
  have look: "get_screen_description e i j (Some obs) =
      (if - int rows \<le> j \<and> j < int rows \<and> - int cols \<le> i \<and> i < int cols
       then Inr (cell_text (screen_descriptions obs ! wrap rows j ! wrap cols i))
       else Inl IndexError)" for i j
    using get_screen_description_eq [OF wf', of i j] by (simp add: observation_or_last_def)
  show ?thesis
    using blk pos obs [symmetric]
    by (simp add: get_neighbor_descriptions_def neighbor_positions look block_addressable_def)
qed

lemma get_neighbor_descriptions_fails:
  assumes wf: "ascii_field (screen_descriptions obs) rows cols"
    and obs: "obs = observation_or_last e observation"
    and pos: "blstats obs = x # y # rest"
    and blk: "\<not> block_addressable rows cols x y"
  shows "get_neighbor_descriptions e observation = Inl IndexError"
proof -
  have wf': "ascii_field (screen_descriptions (observation_or_last e (Some obs))) rows cols"
    using wf by (simp add: observation_or_last_def)
  have look: "get_screen_description e i j (Some obs) =
      (if - int rows \<le> j \<and> j < int rows \<and> - int cols \<le> i \<and> i < int cols
       then Inr (cell_text (screen_descriptions obs ! wrap rows j ! wrap cols i))
       else Inl IndexError)" for i j
    using get_screen_description_eq [OF wf', of i j] by (simp add: observation_or_last_def)
  show ?thesis
    using blk pos obs [symmetric]
    by (auto simp: get_neighbor_descriptions_def neighbor_positions look block_addressable_def)
qed

lemma scan_neighbors_none:
  "\<forall>d \<in> set ns. \<not> py_in name d \<Longrightarrow> scan_neighbors name (enumerate n ns) = Inr None"
  by (induction ns arbitrary: n) simp_all

lemma scan_neighbors_first:
  "i < length ns \<Longrightarrow> py_in name (ns ! i) \<Longrightarrow> \<forall>k < i. \<not> py_in name (ns ! k)
     \<Longrightarrow> scan_neighbors name (enumerate n ns) = index_to_dir_action (int (n + i))"
proof (induction ns arbitrary: n i)
  case Nil
  then show ?case by simp
next
  case (Cons d ds)
  show ?case
  proof (cases i)
    case 0
    with Cons.prems show ?thesis by simp
  next
    case (Suc i')
    with Cons.prems have nd: "\<not> py_in name d" by auto
    have "scan_neighbors name (enumerate (Suc n) ds) = index_to_dir_action (int (Suc n + i'))"
    proof (rule Cons.IH)
      show "i' < length ds" using Cons.prems Suc by simp
      show "py_in name (ds ! i')" using Cons.prems Suc by simp
      show "\<forall>k < i'. \<not> py_in name (ds ! k)"
        using Cons.prems(3) Suc by (metis Suc_less_eq nth_Cons_Suc)
    qed
    then show ?thesis using nd Suc by simp
  qed
qed

lemma index_to_dir_action_returns:
  "i < 9 \<Longrightarrow> \<exists>d. index_to_dir_action (int i) = Inr d"
proof -
  assume "i < 9"
  then have "i \<in> {0, 1, 2, 3, 4, 5, 6, 7, 8}" by auto
  then show ?thesis
    by (auto simp: index_to_dir_action_def index_to_dir_dict_def)
qed

lemma py_in_sublist: "py_in name s = sublist name s"
  by (induction s) (auto simp: sublist_Cons_right)

lemma scan_inventory_eq:
  assumes "\<forall>p \<in> set ps. fst p < 0x80 \<and> (\<forall>b \<in> set (snd p). b < 0x80)"
  shows "scan_inventory name ps =
     Inr (case find (\<lambda>p. py_in name (map unat (snd p))) (takeWhile (\<lambda>p. \<not> zero_line p) ps) of
            None \<Rightarrow> None
          | Some p \<Rightarrow> Some [unat (fst p)])"
  using assms
proof (induction ps)
  case Nil
  then show ?case by simp
next
  case (Cons p ps)
  obtain letter line where p: "p = (letter, line)" by (cases p)
  from Cons.prems p have a: "letter < 0x80" and b: "\<forall>b \<in> set line. b < 0x80" by auto
  have dl: "decode line = Inr (map unat line)" using b by (rule decode_ascii)
  have dk: "decode [letter] = Inr [unat letter]" using a by (simp add: decode_ascii)
  show ?case
    using Cons p dl dk by (simp add: zero_line_def)
qed

subsection \<open>The description of one cell\<close>

text \<open>
  C2, amended. On a field of \<open>rows\<close> by \<open>cols\<close> buffers that each hold ASCII bytes and a
  zero byte: for \<open>0 \<le> x < cols\<close> and \<open>0 \<le> y < rows\<close> the lookup never fails and
  returns the buffer of cell \<open>(x, y)\<close> cut before its first zero byte, as text; the
  lookup fails if and only if \<open>x\<close> is outside \<open>[-cols, cols - 1]\<close> or \<open>y\<close> is outside
  \<open>[-rows, rows - 1]\<close>, and it then fails with a lookup error (\<open>IndexError\<close>).
\<close>

theorem get_screen_description_bounds:
  assumes "ascii_field (screen_descriptions (observation_or_last e observation)) rows cols"
  shows "(0 \<le> x \<and> x < int cols \<and> 0 \<le> y \<and> y < int rows
           \<longrightarrow> get_screen_description e x y observation
               = Inr (cell_text (screen_descriptions (observation_or_last e observation)
                                   ! nat y ! nat x)))
         \<and> ((\<exists>err. get_screen_description e x y observation = Inl err)
              \<longleftrightarrow> (x < - int cols \<or> int cols \<le> x \<or> y < - int rows \<or> int rows \<le> y))
         \<and> (\<forall>err. get_screen_description e x y observation = Inl err \<longrightarrow> err = IndexError)"
  by (auto simp: get_screen_description_eq [OF assms] wrap_def)

theorem get_screen_description_bounds_witness:
  "ascii_field (screen_descriptions (observation_or_last (ex_env None 5 5) None)) 3 3
   \<and> get_screen_description (ex_env None 5 5) 1 0 None = Inr (str ''door'')
   \<and> (\<exists>err. get_screen_description (ex_env None 5 5) 3 0 None = Inl err)
   \<and> (\<exists>err. get_screen_description (ex_env None 5 5) 1 (- 4) None = Inl err)"
proof -
  have wf: "ascii_field (screen_descriptions (observation_or_last (ex_env None 5 5) None)) 3 3"
    by code_simp
  have cell: "cell_text (screen_descriptions (observation_or_last (ex_env None 5 5) None)
                           ! 0 ! 1) = str ''door''"
    by code_simp
  show ?thesis
    using wf cell
      get_screen_description_bounds [OF wf, of 1 0]
      get_screen_description_bounds [OF wf, of 3 0]
      get_screen_description_bounds [OF wf, of 1 "- 4"]
    by simp
qed

text \<open>
  The claim as stated fails at \<open>(x, y) = (-1, 0)\<close> on the three by three field: the
  coordinate is outside the field bounds and the lookup returns the description of the
  last cell of row 0.
\<close>

theorem get_screen_description_outside_counterexample:
  "get_screen_description (ex_env None 5 5) (- 1) 0 None = Inr (str ''wall'')
   \<and> \<not> ((\<exists>err. get_screen_description (ex_env None 5 5) (- 1) 0 None = Inl err)
          \<longleftrightarrow> \<not> (0 \<le> (- 1 :: int) \<and> (- 1 :: int) < 3 \<and> 0 \<le> (0 :: int) \<and> (0 :: int) < 3))"
proof -
  have "get_screen_description (ex_env None 5 5) (- 1) 0 None = Inr (str ''wall'')"
    by code_simp
  then show ?thesis by simp
qed

subsection \<open>Negative coordinates\<close>

text \<open>
  C9, amended. On a field of \<open>rows\<close> by \<open>cols\<close> buffers that each hold ASCII bytes and a
  zero byte, a lookup at \<open>-cols \<le> x < cols\<close> and \<open>-rows \<le> y < rows\<close> does not fail, and
  a negative coordinate is counted from the opposite edge (\<open>x + cols\<close>, \<open>y + rows\<close>).
  Consequently the neighbourhood of an anchor on row 0 or column 0 that is not on the
  last row or the last column is returned without a bounds error, the cells above row
  0 being those of the last row and the cells left of column 0 those of the last
  column.
\<close>

theorem negative_index_wraps:
  assumes "ascii_field (screen_descriptions obs) rows cols"
    and "obs = observation_or_last e observation"
  shows "(- int cols \<le> x \<and> x < int cols \<and> - int rows \<le> y \<and> y < int rows
           \<longrightarrow> get_screen_description e x y observation
               = Inr (cell_text (screen_descriptions obs
                                   ! nat (if y < 0 then y + int rows else y)
                                   ! nat (if x < 0 then x + int cols else x))))
         \<and> (blstats obs = ax # ay # rest
              \<and> 0 \<le> ax \<and> ax + 1 < int cols \<and> 0 \<le> ay \<and> ay + 1 < int rows
           \<longrightarrow> get_neighbor_descriptions e observation
               = (let up = (if ay = 0 then rows - 1 else nat ay - 1);
                      left = (if ax = 0 then cols - 1 else nat ax - 1)
                  in Inr (map (\<lambda>(r, c). cell_text (screen_descriptions obs ! r ! c))
                            [(up, left), (up, nat ax), (up, nat ax + 1),
                             (nat ay, left), (nat ay, nat ax), (nat ay, nat ax + 1),
                             (nat ay + 1, left), (nat ay + 1, nat ax),
                             (nat ay + 1, nat ax + 1)])))"
proof (intro conjI impI)
  have wf: "ascii_field (screen_descriptions (observation_or_last e observation)) rows cols"
    using assms by simp
  assume "- int cols \<le> x \<and> x < int cols \<and> - int rows \<le> y \<and> y < int rows"
  then show "get_screen_description e x y observation
      = Inr (cell_text (screen_descriptions obs
                          ! nat (if y < 0 then y + int rows else y)
                          ! nat (if x < 0 then x + int cols else x)))"
    using assms(2) by (simp add: get_screen_description_eq [OF wf] wrap_def)
next
  assume a: "blstats obs = ax # ay # rest
      \<and> 0 \<le> ax \<and> ax + 1 < int cols \<and> 0 \<le> ay \<and> ay + 1 < int rows"
  then have blk: "block_addressable rows cols ax ay"
    by (simp add: block_addressable_def)
  have w: "wrap rows (ay - 1) = (if ay = 0 then rows - 1 else nat ay - 1)"
      "wrap cols (ax - 1) = (if ax = 0 then cols - 1 else nat ax - 1)"
      "wrap rows ay = nat ay" "wrap cols ax = nat ax"
      "wrap rows (ay + 1) = nat ay + 1" "wrap cols (ax + 1) = nat ax + 1"
    using a by (auto simp: wrap_def)
  from a have pos: "blstats obs = ax # ay # rest" by simp
  show "get_neighbor_descriptions e observation
      = (let up = (if ay = 0 then rows - 1 else nat ay - 1);
             left = (if ax = 0 then cols - 1 else nat ax - 1)
         in Inr (map (\<lambda>(r, c). cell_text (screen_descriptions obs ! r ! c))
                   [(up, left), (up, nat ax), (up, nat ax + 1),
                    (nat ay, left), (nat ay, nat ax), (nat ay, nat ax + 1),
                    (nat ay + 1, left), (nat ay + 1, nat ax),
                    (nat ay + 1, nat ax + 1)]))"
    unfolding get_neighbor_descriptions_eq [OF assms pos blk]
    by (simp only: w Let_def list.map prod.case)
qed

theorem negative_index_wraps_witness:
  "ascii_field (screen_descriptions (ex_obs 0 1)) 3 3
   \<and> ex_obs 0 1 = observation_or_last (ex_env None 5 5) (Some (ex_obs 0 1))
   \<and> get_screen_description (ex_env None 5 5) (- 1) (- 3) (Some (ex_obs 0 1))
       = Inr (str ''wall'')
   \<and> get_screen_description (ex_env None 5 5) (- 2) (- 1) (Some (ex_obs 0 1))
       = Inr (str ''altar'')
   \<and> blstats (ex_obs 0 1) = [0, 1, 0]
   \<and> get_neighbor_descriptions (ex_env None 5 5) (Some (ex_obs 0 1))
       = Inr (map str [''wall'', ''wall'', ''door'',
                       ''floor'', ''floor'', ''floor'',
                       ''stairs'', ''floor'', ''altar''])"
proof -
  have wf: "ascii_field (screen_descriptions (ex_obs 0 1)) 3 3"
    by code_simp
  have ob: "ex_obs 0 1 = observation_or_last (ex_env None 5 5) (Some (ex_obs 0 1))"
    by (simp add: observation_or_last_def)
  have pos: "blstats (ex_obs 0 1) = [0, 1, 0]"
    by (simp add: ex_obs_def)
  have cells:
    "cell_text (screen_descriptions (ex_obs 0 1) ! 0 ! 0) = str ''wall''"
    "cell_text (screen_descriptions (ex_obs 0 1) ! 0 ! 1) = str ''door''"
    "cell_text (screen_descriptions (ex_obs 0 1) ! 0 ! 2) = str ''wall''"
    "cell_text (screen_descriptions (ex_obs 0 1) ! 1 ! 0) = str ''floor''"
    "cell_text (screen_descriptions (ex_obs 0 1) ! 1 ! 1) = str ''floor''"
    "cell_text (screen_descriptions (ex_obs 0 1) ! 1 ! 2) = str ''floor''"
    "cell_text (screen_descriptions (ex_obs 0 1) ! 2 ! 0) = str ''floor''"
    "cell_text (screen_descriptions (ex_obs 0 1) ! 2 ! 1) = str ''altar''"
    "cell_text (screen_descriptions (ex_obs 0 1) ! 2 ! 2) = str ''stairs''"
    by code_simp+
  show ?thesis
    using wf ob pos cells
      negative_index_wraps [OF wf ob, of "- 1" "- 3" 0 1 "[0]"]
      negative_index_wraps [OF wf ob, of "- 2" "- 1" 0 1 "[0]"]
    by (simp add: numeral_2_eq_2)
qed

text \<open>
  The claim as stated fails for the anchor \<open>(0, 2)\<close> of the three by three field: it is
  on column 0, and the neighbourhood raises a bounds error, because row 3 does not
  exist.
\<close>

theorem neighbors_first_column_last_row_counterexample:
  "blstats (ex_obs 0 2) = [0, 2, 0]
   \<and> get_neighbor_descriptions (ex_env None 5 5) (Some (ex_obs 0 2)) = Inl IndexError
   \<and> (\<forall>ns. get_neighbor_descriptions (ex_env None 5 5) (Some (ex_obs 0 2)) \<noteq> Inr ns)"
proof -
  have "get_neighbor_descriptions (ex_env None 5 5) (Some (ex_obs 0 2)) = Inl IndexError"
    by code_simp
  then show ?thesis by (simp add: ex_obs_def)
qed

subsection \<open>The nine descriptions around the agent\<close>

text \<open>
  C5, amended. On a field of \<open>rows\<close> by \<open>cols\<close> buffers that each hold ASCII bytes and a
  zero byte, and for an anchor \<open>(x, y)\<close> with \<open>-cols < x < cols - 1\<close> and
  \<open>-rows < y < rows - 1\<close> (every cell of the block can be looked up), the neighbourhood
  operation returns exactly nine texts in row-major order, rows outer from \<open>y - 1\<close> to
  \<open>y + 1\<close> and columns inner from \<open>x - 1\<close> to \<open>x + 1\<close>: the text at index
  \<open>3 * dy + dx\<close> is the description of cell \<open>(x - 1 + dx, y - 1 + dy)\<close>, and the
  anchor's own description is at index 4. For every other anchor the operation fails
  with a lookup error.
\<close>

theorem get_neighbor_descriptions_row_major:
  assumes "ascii_field (screen_descriptions obs) rows cols"
    and "obs = observation_or_last e observation"
    and "blstats obs = x # y # rest"
  shows "(block_addressable rows cols x y
           \<longrightarrow> (\<exists>ns. get_neighbor_descriptions e observation = Inr ns
                 \<and> length ns = 9
                 \<and> (\<forall>dy < 3. \<forall>dx < 3.
                       get_screen_description e (x - 1 + int dx) (y - 1 + int dy) (Some obs)
                         = Inr (ns ! (3 * dy + dx)))
                 \<and> get_screen_description e x y (Some obs) = Inr (ns ! 4)))
         \<and> (\<not> block_addressable rows cols x y
           \<longrightarrow> get_neighbor_descriptions e observation = Inl IndexError)"
proof (intro conjI impI)
  assume blk: "block_addressable rows cols x y"
  let ?ps = "[(x - 1, y - 1), (x, y - 1), (x + 1, y - 1),
              (x - 1, y), (x, y), (x + 1, y),
              (x - 1, y + 1), (x, y + 1), (x + 1, y + 1)]"
  obtain ns where ns: "get_neighbor_descriptions e observation = Inr ns"
    using get_neighbor_descriptions_eq [OF assms blk] by blast
  have "get_neighbor_descriptions e observation
          = collect (\<lambda>(i, j). get_screen_description e i j (Some obs)) ?ps"
    using assms(2,3)
    by (simp add: get_neighbor_descriptions_def neighbor_positions Let_def del: collect.simps)
  with ns have c: "collect (\<lambda>(i, j). get_screen_description e i j (Some obs)) ?ps = Inr ns"
    by simp
  note k = collect_Inr [OF c]
  have len: "length ns = 9" using k by simp
  have at: "(case ?ps ! n of (i, j) \<Rightarrow> get_screen_description e i j (Some obs)) = Inr (ns ! n)"
    if "n < 9" for n
    using k that by simp
  have cells: "get_screen_description e (x - 1 + int dx) (y - 1 + int dy) (Some obs)
                 = Inr (ns ! (3 * dy + dx))"
    if "dy < 3" "dx < 3" for dy dx
  proof -
    from that have "dy \<in> {0, 1, 2}" "dx \<in> {0, 1, 2}" by auto
    then show ?thesis
      using at [of "3 * dy + dx"] by (auto simp: add.commute)
  qed
  have "get_screen_description e x y (Some obs) = Inr (ns ! 4)"
    using at [of 4] by simp
  with ns len cells
  show "\<exists>ns. get_neighbor_descriptions e observation = Inr ns
          \<and> length ns = 9
          \<and> (\<forall>dy < 3. \<forall>dx < 3.
                get_screen_description e (x - 1 + int dx) (y - 1 + int dy) (Some obs)
                  = Inr (ns ! (3 * dy + dx)))
          \<and> get_screen_description e x y (Some obs) = Inr (ns ! 4)"
    by blast
next
  assume "\<not> block_addressable rows cols x y"
  then show "get_neighbor_descriptions e observation = Inl IndexError"
    by (rule get_neighbor_descriptions_fails [OF assms])
qed

theorem get_neighbor_descriptions_row_major_witness:
  "ascii_field (screen_descriptions (ex_obs 1 1)) 3 3
   \<and> ex_obs 1 1 = observation_or_last (ex_env None 5 5) None
   \<and> blstats (ex_obs 1 1) = [1, 1, 0]
   \<and> block_addressable 3 3 1 1
   \<and> (\<exists>ns. get_neighbor_descriptions (ex_env None 5 5) None = Inr ns
         \<and> length ns = 9
         \<and> get_screen_description (ex_env None 5 5) 1 0 (Some (ex_obs 1 1)) = Inr (ns ! 1)
         \<and> get_screen_description (ex_env None 5 5) 1 1 (Some (ex_obs 1 1)) = Inr (ns ! 4))
   \<and> \<not> block_addressable 3 3 2 2
   \<and> get_neighbor_descriptions (ex_env None 5 5) (Some (ex_obs 2 2)) = Inl IndexError"
proof -
  have wf: "ascii_field (screen_descriptions (ex_obs x y)) 3 3" for x y
    by code_simp
  have ob: "ex_obs 1 1 = observation_or_last (ex_env None 5 5) None"
    by (simp add: observation_or_last_def ex_env_def)
  have ob2: "ex_obs 2 2 = observation_or_last (ex_env None 5 5) (Some (ex_obs 2 2))"
    by (simp add: observation_or_last_def)
  have pos: "blstats (ex_obs 1 1) = [1, 1, 0]" "blstats (ex_obs 2 2) = [2, 2, 0]"
    by (simp_all add: ex_obs_def)
  have blk: "block_addressable 3 3 1 1" "\<not> block_addressable 3 3 2 2"
    by (simp_all add: block_addressable_def)
  from get_neighbor_descriptions_row_major [OF wf ob pos(1)] blk(1)
  obtain ns where ns: "get_neighbor_descriptions (ex_env None 5 5) None = Inr ns"
      "length ns = 9"
      "\<forall>dy < 3. \<forall>dx < 3.
         get_screen_description (ex_env None 5 5) (1 - 1 + int dx) (1 - 1 + int dy)
           (Some (ex_obs 1 1)) = Inr (ns ! (3 * dy + dx))"
      "get_screen_description (ex_env None 5 5) 1 1 (Some (ex_obs 1 1)) = Inr (ns ! 4)"
    by blast
  have "get_screen_description (ex_env None 5 5) (1 - 1 + int 1) (1 - 1 + int 0)
          (Some (ex_obs 1 1)) = Inr (ns ! (3 * 0 + 1))"
    using ns(3) by (metis zero_less_numeral one_less_numeral_iff semiring_norm(77))
  then have n1: "get_screen_description (ex_env None 5 5) 1 0 (Some (ex_obs 1 1)) = Inr (ns ! 1)"
    by simp
  have fails: "get_neighbor_descriptions (ex_env None 5 5) (Some (ex_obs 2 2)) = Inl IndexError"
    using get_neighbor_descriptions_row_major [OF wf ob2 pos(2)] blk(2) by blast
  show ?thesis
    using wf ob pos blk ns n1 fails by blast
qed

text \<open>
  The claim as stated fails for the anchor \<open>(2, 1)\<close> of the three by three field, an
  anchor on the last column: no nine texts are returned, the operation raises a bounds
  error at column 3.
\<close>

theorem neighbors_last_column_counterexample:
  "\<not> (\<exists>ns. get_neighbor_descriptions (ex_env None 5 5) (Some (ex_obs 2 1)) = Inr ns
          \<and> length ns = 9)"
proof -
  have "get_neighbor_descriptions (ex_env None 5 5) (Some (ex_obs 2 1)) = Inl IndexError"
    by code_simp
  then show ?thesis by simp
qed

subsection \<open>The direction of a named object\<close>

text \<open>
  C7, amended. On a field of \<open>rows\<close> by \<open>cols\<close> buffers that each hold ASCII bytes and a
  zero byte, and for an anchor \<open>(x, y)\<close> with \<open>-cols < x < cols - 1\<close> and
  \<open>-rows < y < rows - 1\<close>, the operation returns: with \<open>ns\<close> the nine neighbourhood
  descriptions, none when no description contains \<open>name\<close>, and otherwise the table's
  entry for the lowest index whose description contains \<open>name\<close>. For every other
  anchor it fails with the lookup error of the neighbourhood operation.
\<close>

theorem get_direction_obj_first_match:
  assumes "ascii_field (screen_descriptions obs) rows cols"
    and "obs = observation_or_last e observation"
    and "blstats obs = x # y # rest"
  shows "(block_addressable rows cols x y
           \<longrightarrow> (\<exists>ns. get_neighbor_descriptions e observation = Inr ns
                 \<and> length ns = 9
                 \<and> ((\<forall>i < 9. \<not> py_in name (ns ! i))
                       \<longrightarrow> get_direction_obj e name observation = Inr None)
                 \<and> (\<forall>i < 9. py_in name (ns ! i) \<and> (\<forall>k < i. \<not> py_in name (ns ! k))
                       \<longrightarrow> get_direction_obj e name observation = index_to_dir_action (int i)
                           \<and> (\<exists>d. index_to_dir_action (int i) = Inr d))))
         \<and> (\<not> block_addressable rows cols x y
           \<longrightarrow> get_direction_obj e name observation = Inl IndexError)"
proof (intro conjI impI)
  assume blk: "block_addressable rows cols x y"
  obtain ns where ns: "get_neighbor_descriptions e observation = Inr ns"
    using get_neighbor_descriptions_eq [OF assms blk] by blast
  then have len: "length ns = 9"
    unfolding get_neighbor_descriptions_eq [OF assms blk] by auto
  have run: "get_direction_obj e name observation = scan_neighbors name (enumerate 0 ns)"
    using ns by (simp add: get_direction_obj_def get_neighbor_descriptions_Some)
  have none: "get_direction_obj e name observation = Inr None"
    if "\<forall>i < 9. \<not> py_in name (ns ! i)"
  proof -
    from that len have "\<forall>d \<in> set ns. \<not> py_in name d"
      by (auto simp: in_set_conv_nth)
    then show ?thesis by (simp add: run scan_neighbors_none)
  qed
  have first: "get_direction_obj e name observation = index_to_dir_action (int i)
                 \<and> (\<exists>d. index_to_dir_action (int i) = Inr d)"
    if "i < 9" "py_in name (ns ! i)" "\<forall>k < i. \<not> py_in name (ns ! k)" for i
    using scan_neighbors_first [of i ns name 0] that len index_to_dir_action_returns [of i]
    by (simp add: run)
  from ns len none first
  show "\<exists>ns. get_neighbor_descriptions e observation = Inr ns
          \<and> length ns = 9
          \<and> ((\<forall>i < 9. \<not> py_in name (ns ! i))
                \<longrightarrow> get_direction_obj e name observation = Inr None)
          \<and> (\<forall>i < 9. py_in name (ns ! i) \<and> (\<forall>k < i. \<not> py_in name (ns ! k))
                \<longrightarrow> get_direction_obj e name observation = index_to_dir_action (int i)
                    \<and> (\<exists>d. index_to_dir_action (int i) = Inr d))"
    by blast
next
  assume "\<not> block_addressable rows cols x y"
  then have "get_neighbor_descriptions e observation = Inl IndexError"
    by (rule get_neighbor_descriptions_fails [OF assms])
  then show "get_direction_obj e name observation = Inl IndexError"
    by (simp add: get_direction_obj_def get_neighbor_descriptions_Some)
qed

theorem get_direction_obj_first_match_witness:
  "ascii_field (screen_descriptions (ex_obs 1 1)) 3 3
   \<and> ex_obs 1 1 = observation_or_last (ex_env None 5 5) None
   \<and> blstats (ex_obs 1 1) = [1, 1, 0]
   \<and> block_addressable 3 3 1 1
   \<and> get_neighbor_descriptions (ex_env None 5 5) None
       = Inr (map str [''wall'', ''door'', ''wall'',
                       ''floor'', ''floor'', ''floor'',
                       ''floor'', ''altar'', ''stairs''])
   \<and> get_direction_obj (ex_env None 5 5) (str ''door'') None = Inr (Some (py_ord CHR ''k''))
   \<and> get_direction_obj (ex_env None 5 5) (str ''fountain'') None = Inr None
   \<and> \<not> block_addressable 3 3 1 2
   \<and> get_direction_obj (ex_env None 5 5) (str ''door'') (Some (ex_obs 1 2)) = Inl IndexError"
proof -
  let ?ns = "map str [''wall'', ''door'', ''wall'', ''floor'', ''floor'', ''floor'',
                      ''floor'', ''altar'', ''stairs'']"
  have wf: "ascii_field (screen_descriptions (ex_obs x y)) 3 3" for x y
    by code_simp
  have ob: "ex_obs 1 1 = observation_or_last (ex_env None 5 5) None"
    by (simp add: observation_or_last_def ex_env_def)
  have ob2: "ex_obs 1 2 = observation_or_last (ex_env None 5 5) (Some (ex_obs 1 2))"
    by (simp add: observation_or_last_def)
  have pos: "blstats (ex_obs 1 1) = [1, 1, 0]" "blstats (ex_obs 1 2) = [1, 2, 0]"
    by (simp_all add: ex_obs_def)
  have blk: "block_addressable 3 3 1 1" "\<not> block_addressable 3 3 1 2"
    by (simp_all add: block_addressable_def)
  have nb: "get_neighbor_descriptions (ex_env None 5 5) None = Inr ?ns"
    by code_simp
  have door: "py_in (str ''door'') (?ns ! 1) \<and> (\<forall>k < 1. \<not> py_in (str ''door'') (?ns ! k))"
    by (simp add: str_def)
  have fountain: "\<forall>i < 9. \<not> py_in (str ''fountain'') (?ns ! i)"
  proof (intro allI impI)
    fix i :: nat
    assume "i < 9"
    then have "i \<in> {0, 1, 2, 3, 4, 5, 6, 7, 8}" by auto
    then show "\<not> py_in (str ''fountain'') (?ns ! i)"
      by (auto simp: str_def)
  qed
  have k: "index_to_dir_action (int 1) = Inr (Some (py_ord CHR ''k''))"
    by (simp add: index_to_dir_action_def index_to_dir_dict_def)
  have main:
    "\<exists>ns. get_neighbor_descriptions (ex_env None 5 5) None = Inr ns
       \<and> length ns = 9
       \<and> ((\<forall>i < 9. \<not> py_in name (ns ! i))
             \<longrightarrow> get_direction_obj (ex_env None 5 5) name None = Inr None)
       \<and> (\<forall>i < 9. py_in name (ns ! i) \<and> (\<forall>k < i. \<not> py_in name (ns ! k))
             \<longrightarrow> get_direction_obj (ex_env None 5 5) name None = index_to_dir_action (int i)
                 \<and> (\<exists>d. index_to_dir_action (int i) = Inr d))" for name
    using get_direction_obj_first_match [OF wf ob pos(1), of name] blk(1) by blast
  from main [of "str ''door''"] obtain ns where
      a: "get_neighbor_descriptions (ex_env None 5 5) None = Inr ns"
      and b: "\<forall>i < 9. py_in (str ''door'') (ns ! i) \<and> (\<forall>k < i. \<not> py_in (str ''door'') (ns ! k))
             \<longrightarrow> get_direction_obj (ex_env None 5 5) (str ''door'') None
                   = index_to_dir_action (int i)
                 \<and> (\<exists>d. index_to_dir_action (int i) = Inr d)"
    by blast
  from a nb have "ns = ?ns" by simp
  with b [rule_format, of 1] door k
  have r1: "get_direction_obj (ex_env None 5 5) (str ''door'') None
              = Inr (Some (py_ord CHR ''k''))"
    by simp
  from main [of "str ''fountain''"] obtain ns' where
      a': "get_neighbor_descriptions (ex_env None 5 5) None = Inr ns'"
      and b': "(\<forall>i < 9. \<not> py_in (str ''fountain'') (ns' ! i))
             \<longrightarrow> get_direction_obj (ex_env None 5 5) (str ''fountain'') None = Inr None"
    by blast
  from a' nb have "ns' = ?ns" by simp
  with b' fountain
  have r2: "get_direction_obj (ex_env None 5 5) (str ''fountain'') None = Inr None"
    by simp
  have r3: "get_direction_obj (ex_env None 5 5) (str ''door'') (Some (ex_obs 1 2))
              = Inl IndexError"
    using get_direction_obj_first_match [OF wf ob2 pos(2), of "str ''door''"] blk(2)
    by blast
  show ?thesis
    using wf ob pos(1) blk nb r1 r2 r3 by blast
qed

text \<open>
  The claim as stated fails for the anchor \<open>(1, 2)\<close> of the three by three field, an
  anchor on the last row: the cell north-east of it holds ``stairs'' and no direction is
  returned, the operation raises a bounds error at row 3.
\<close>

theorem direction_last_row_counterexample:
  "get_direction_obj (ex_env None 5 5) (str ''floor'') (Some (ex_obs 1 2)) = Inl IndexError
   \<and> (\<forall>d. get_direction_obj (ex_env None 5 5) (str ''floor'') (Some (ex_obs 1 2)) \<noteq> Inr d)"
proof -
  have "get_direction_obj (ex_env None 5 5) (str ''floor'') (Some (ex_obs 1 2))
          = Inl IndexError"
    by code_simp
  then show ?thesis by simp
qed

subsection \<open>The key of an inventory item\<close>

text \<open>
  C10. With both inventory keys among the observation keys and an inventory of ASCII
  bytes, the lookup goes through the pairs of letter and line in order, stops at the
  first line of zero bytes, and returns the letter, as text, of the first line before
  that point whose text contains \<open>name\<close>; it returns none when no line before that
  point contains \<open>name\<close>, whatever the lines after the line of zero bytes hold.
\<close>

theorem key_in_inventory_first_match:
  assumes "''inv_strs'' \<in> set (observation_keys e)"
    and "''inv_letters'' \<in> set (observation_keys e)"
    and "ascii_inventory (last_observation e)"
  shows "key_in_inventory e name =
     Inr (case find (\<lambda>p. py_in name (map unat (snd p)))
                 (takeWhile (\<lambda>p. \<not> zero_line p)
                    (zip (inv_letters (last_observation e)) (inv_strs (last_observation e)))) of
            None \<Rightarrow> None
          | Some p \<Rightarrow> Some [unat (fst p)])"
proof -
  have "\<forall>p \<in> set (zip (inv_letters (last_observation e)) (inv_strs (last_observation e))).
          fst p < 0x80 \<and> (\<forall>b \<in> set (snd p). b < 0x80)"
    using assms(3) by (auto simp: ascii_inventory_def dest: set_zip_leftD set_zip_rightD)
  then show ?thesis
    using assms(1,2) by (simp add: key_in_inventory_def scan_inventory_eq)
qed

theorem key_in_inventory_first_match_witness:
  "''inv_strs'' \<in> set (observation_keys (ex_env None 5 5))
   \<and> ''inv_letters'' \<in> set (observation_keys (ex_env None 5 5))
   \<and> ascii_inventory (last_observation (ex_env None 5 5))
   \<and> inv_strs (last_observation (ex_env None 5 5))
       = [buffer ''a dagger'', buffer ''an ax'', replicate 8 0, buffer ''a key'']
   \<and> key_in_inventory (ex_env None 5 5) (str ''a'') = Inr (Some (str ''a''))
   \<and> key_in_inventory (ex_env None 5 5) (str ''ax'') = Inr (Some (str ''b''))
   \<and> key_in_inventory (ex_env None 5 5) (str ''key'') = Inr None"
proof -
  have k1: "''inv_strs'' \<in> set (observation_keys (ex_env None 5 5))"
    and k2: "''inv_letters'' \<in> set (observation_keys (ex_env None 5 5))"
    by (simp_all add: ex_env_def ex_keys_def)
  have a: "ascii_inventory (last_observation (ex_env None 5 5))"
    by code_simp
  have lines: "inv_strs (last_observation (ex_env None 5 5))
                 = [buffer ''a dagger'', buffer ''an ax'', replicate 8 0, buffer ''a key'']"
    by (simp add: ex_env_def ex_obs_def buffer_def)
  have v:
    "(case find (\<lambda>p. py_in (str ''a'') (map unat (snd p)))
             (takeWhile (\<lambda>p. \<not> zero_line p)
                (zip (inv_letters (last_observation (ex_env None 5 5)))
                     (inv_strs (last_observation (ex_env None 5 5))))) of
        None \<Rightarrow> None | Some p \<Rightarrow> Some [unat (fst p)]) = Some (str ''a'')"
    "(case find (\<lambda>p. py_in (str ''ax'') (map unat (snd p)))
             (takeWhile (\<lambda>p. \<not> zero_line p)
                (zip (inv_letters (last_observation (ex_env None 5 5)))
                     (inv_strs (last_observation (ex_env None 5 5))))) of
        None \<Rightarrow> None | Some p \<Rightarrow> Some [unat (fst p)]) = Some (str ''b'')"
    "(case find (\<lambda>p. py_in (str ''key'') (map unat (snd p)))
             (takeWhile (\<lambda>p. \<not> zero_line p)
                (zip (inv_letters (last_observation (ex_env None 5 5)))
                     (inv_strs (last_observation (ex_env None 5 5))))) of
        None \<Rightarrow> None | Some p \<Rightarrow> Some [unat (fst p)]) = None"
    by code_simp+
  show ?thesis
    using k1 k2 a lines v
      key_in_inventory_first_match [OF k1 k2 a, of "str ''a''"]
      key_in_inventory_first_match [OF k1 k2 a, of "str ''ax''"]
      key_in_inventory_first_match [OF k1 k2 a, of "str ''key''"]
    by simp
qed

subsection \<open>The observation window\<close>

text \<open>
  The padded array cell by cell, a slice whose bounds lie within the sequence, and the
  crop for a window whose half height and half width are the same number \<open>d\<close> and an
  anchor inside the field: the result is a window of \<open>2 * d + 1\<close> rows and columns
  whose cell \<open>(i, j)\<close> is the field's cell \<open>(y + i - d, x + j - d)\<close> where that cell
  exists and the padding value elsewhere, so the anchor is at \<open>(d, d)\<close>.
\<close>

lemma length_np_pad: "length (np_pad a (b, k) c) = b + length a + k"
  by (simp add: np_pad_def Let_def)

lemma np_pad_row:
  assumes "i < b + length a + k"
  shows "np_pad a (b, k) c ! i =
      (if b \<le> i \<and> i < b + length a then replicate b c @ a ! (i - b) @ replicate k c
       else replicate (b + ncols a + k) c)"
proof -
  let ?w = "b + ncols a + k"
  have p: "np_pad a (b, k) c =
      replicate b (replicate ?w c)
      @ map (\<lambda>r. replicate b c @ r @ replicate k c) a
      @ replicate k (replicate ?w c)"
    by (simp add: np_pad_def Let_def)
  consider (top) "i < b" | (mid) "b \<le> i" "i < b + length a" | (bot) "b + length a \<le> i"
    by linarith
  then show ?thesis
  proof cases
    case top
    then show ?thesis by (simp add: p nth_append)
  next
    case mid
    then have "i - b < length a" by linarith
    with mid show ?thesis by (simp add: p nth_append)
  next
    case bot
    then have "\<not> i - b < length a" "\<not> i < b" "i - b - length a < k"
      using assms by linarith+
    with bot show ?thesis by (simp add: p nth_append)
  qed
qed

lemma length_np_pad_row:
  assumes "\<forall>r \<in> set a. length r = ncols a" and "i < b + length a + k"
  shows "length (np_pad a (b, k) c ! i) = b + ncols a + k"
proof -
  have "length (a ! (i - b)) = ncols a" if "b \<le> i" "i < b + length a"
    using assms(1) that by simp
  then show ?thesis by (simp add: np_pad_row [OF assms(2)])
qed

lemma np_pad_nth:
  assumes "\<forall>r \<in> set a. length r = ncols a"
    and "i < b + length a + k" and "j < b + ncols a + k"
  shows "np_pad a (b, k) c ! i ! j =
           (if b \<le> i \<and> i < b + length a \<and> b \<le> j \<and> j < b + ncols a
            then a ! (i - b) ! (j - b) else c)"
proof -
  have "length (a ! (i - b)) = ncols a" if "b \<le> i" "i < b + length a"
    using assms(1) that by simp
  then show ?thesis
    using assms(3) by (auto simp: np_pad_row [OF assms(2)] nth_append)
qed

lemma py_slice_inside:
  assumes "0 \<le> lo" "lo \<le> hi" "hi \<le> int (length xs)"
  shows "py_slice lo hi xs = take (nat (hi - lo)) (drop (nat lo) xs)"
proof -
  have "slice_bound (length xs) lo = nat lo" "slice_bound (length xs) hi = nat hi"
    using assms by (auto simp: slice_bound_def)
  moreover have "nat hi - nat lo = nat (hi - lo)" using assms by simp
  ultimately show ?thesis by (simp add: py_slice_def)
qed

lemma crop_observation_square:
  assumes rect: "\<forall>r \<in> set field. length r = ncols field"
    and h: "obs_crop_h e div 2 = int d" and w: "obs_crop_w e div 2 = int d"
    and x: "0 \<le> x" "x < int (ncols field)" and y: "0 \<le> y" "y < int (length field)"
  shows "\<exists>win. crop_observation e field (x, y) = Inr win
           \<and> length win = 2 * d + 1
           \<and> (\<forall>i < 2 * d + 1. length (win ! i) = 2 * d + 1
                \<and> (\<forall>j < 2 * d + 1.
                      win ! i ! j =
                        (let r = y + int i - int d; c = x + int j - int d
                         in if 0 \<le> r \<and> r < int (length field)
                               \<and> 0 \<le> c \<and> c < int (ncols field)
                            then field ! nat r ! nat c else obs_crop_pad e)))"
proof -
  let ?P = "np_pad field (d, d) (obs_crop_pad e)"
  let ?n = "2 * d + 1"
  let ?rows = "take ?n (drop (nat y) ?P)"
  let ?win = "map (\<lambda>row. take ?n (drop (nat x) row)) ?rows"
  have lenP: "length ?P = d + length field + d" by (rule length_np_pad)
  have n: "nat (v + int d + int d + 1 - v) = ?n" for v :: int
    by linarith
  have "py_slice y (y + int d + int d + 1) ?P
          = take (nat (y + int d + int d + 1 - y)) (drop (nat y) ?P)"
    using y by (intro py_slice_inside) (simp_all add: lenP)
  then have s1: "py_slice y (y + int d + int d + 1) ?P = ?rows"
    by (simp only: n)
  have rowlen: "length row = d + ncols field + d" if "row \<in> set ?rows" for row
  proof -
    from that have "row \<in> set ?P" by (meson in_set_dropD in_set_takeD)
    then obtain i where "i < length ?P" "row = ?P ! i" by (auto simp: in_set_conv_nth)
    then show ?thesis using length_np_pad_row [OF rect, of i d d] by (simp add: lenP)
  qed
  have s2: "py_slice x (x + int d + int d + 1) row = take ?n (drop (nat x) row)"
    if "row \<in> set ?rows" for row
  proof -
    have "py_slice x (x + int d + int d + 1) row
            = take (nat (x + int d + int d + 1 - x)) (drop (nat x) row)"
      using x rowlen [OF that] by (intro py_slice_inside) simp_all
    then show ?thesis by (simp only: n)
  qed
  have m: "map (py_slice x (x + int d + int d + 1)) ?rows = ?win"
    by (rule map_cong [OF refl s2])
  have "crop_observation e field (x, y)
          = Inr (map (py_slice x (x + int d + int d + 1))
                   (py_slice y (y + int d + int d + 1) ?P))"
    by (simp add: crop_observation_def h w Let_def)
  then have res: "crop_observation e field (x, y) = Inr ?win"
    by (simp only: s1 m)
  have lw: "length ?win = ?n" using y by (simp add: lenP)
  have cell: "length (?win ! i) = ?n
      \<and> (\<forall>j < ?n. ?win ! i ! j =
            (let r = y + int i - int d; c = x + int j - int d
             in if 0 \<le> r \<and> r < int (length field) \<and> 0 \<le> c \<and> c < int (ncols field)
                then field ! nat r ! nat c else obs_crop_pad e))" if i: "i < ?n" for i
  proof -
    have ir: "nat y + i < d + length field + d" using i y by linarith
    have wi: "?win ! i = take ?n (drop (nat x) (?P ! (nat y + i)))"
      using i y by (simp add: lenP)
    have rl: "length (?P ! (nat y + i)) = d + ncols field + d"
      by (rule length_np_pad_row [OF rect ir])
    have l: "length (?win ! i) = ?n"
      unfolding wi using x by (simp add: rl)
    have c: "?win ! i ! j =
            (let r = y + int i - int d; c = x + int j - int d
             in if 0 \<le> r \<and> r < int (length field) \<and> 0 \<le> c \<and> c < int (ncols field)
                then field ! nat r ! nat c else obs_crop_pad e)" if j: "j < ?n" for j
    proof -
      have jr: "nat x + j < d + ncols field + d" using j x by linarith
      have "?win ! i ! j = ?P ! (nat y + i) ! (nat x + j)"
        unfolding wi using j jr by (simp add: rl)
      also have "\<dots> = (if d \<le> nat y + i \<and> nat y + i < d + length field
                          \<and> d \<le> nat x + j \<and> nat x + j < d + ncols field
                       then field ! (nat y + i - d) ! (nat x + j - d) else obs_crop_pad e)"
        by (rule np_pad_nth [OF rect ir jr])
      also have "\<dots> = (let r = y + int i - int d; c = x + int j - int d
             in if 0 \<le> r \<and> r < int (length field) \<and> 0 \<le> c \<and> c < int (ncols field)
                then field ! nat r ! nat c else obs_crop_pad e)"
      proof -
        have "nat (y + int i - int d) = nat y + i - d" "nat (x + int j - int d) = nat x + j - d"
          using x y by linarith+
        moreover have "(d \<le> nat y + i) = (0 \<le> y + int i - int d)"
          "(nat y + i < d + length field) = (y + int i - int d < int (length field))"
          "(d \<le> nat x + j) = (0 \<le> x + int j - int d)"
          "(nat x + j < d + ncols field) = (x + int j - int d < int (ncols field))"
          using x y by linarith+
        ultimately show ?thesis by (simp add: Let_def)
      qed
      finally show ?thesis .
    qed
    from l c show ?thesis by blast
  qed
  from res lw cell show ?thesis by blast
qed

text \<open>
  The window of five by five at the corner \<open>(0, 0)\<close> of a three by three field: the
  cells outside the field hold the padding value and the anchor's value 1 is at the
  centre \<open>(2, 2)\<close>.
\<close>

lemma crop_observation_corner:
  "crop_observation (ex_env None 5 5) [[1, 2, 3], [4, 5, 6], [7, 8, 9]] (0, 0)
     = Inr [[0, 0, 0, 0, 0],
            [0, 0, 0, 0, 0],
            [0, 0, 1, 2, 3],
            [0, 0, 4, 5, 6],
            [0, 0, 7, 8, 9]]"
  by code_simp

text \<open>
  C1. The claim asks for a window of \<open>window_h\<close> rows and \<open>window_w\<close> columns with the
  anchor at its centre, for every odd height and width. The code passes
  \<open>pad_width=(dw, dh)\<close> to \<open>np.pad\<close>, which pads every axis by \<open>dw\<close> before and
  \<open>dh\<close> after the data, and then slices as if the rows had been padded by \<open>dh\<close> on
  both sides. With a height of 3 and a width of 5 on the field
  \<open>[[1, 2, 3], [4, 5, 6], [7, 8, 9]]\<close> and the anchor \<open>(1, 1)\<close>, whose value is 5, the
  window is one row too high in the field: the anchor's value is at \<open>(2, 2)\<close> and not
  at the centre \<open>(1, 2)\<close>. With a height of 5 and a width of 3 and the anchor
  \<open>(2, 2)\<close>, whose value is 9, the window has four rows and not five.
\<close>

theorem crop_observation_unequal_window:
  "crop_observation (ex_env None 3 5) [[1, 2, 3], [4, 5, 6], [7, 8, 9]] (1, 1)
     = Inr [[0, 0, 0, 0, 0],
            [0, 1, 2, 3, 0],
            [0, 4, 5, 6, 0]]
   \<and> crop_observation (ex_env None 5 3) [[1, 2, 3], [4, 5, 6], [7, 8, 9]] (2, 2)
     = Inr [[5, 6, 0],
            [8, 9, 0],
            [0, 0, 0],
            [0, 0, 0]]"
  by code_simp

end
